theory Spec2Isabelle
  imports Main "HOL-Library.Multiset"
begin

text \<open>
  The travel-plan function of the repository: the extraction of a JSON object and of
  airport codes from the text of a model's reply, the resolution of the two airport
  lists through its tiers, the search and ordering of flights, and the handler that
  puts them together. The definitions follow the source function by function; what
  the services answer is a parameter of the model.
\<close>

section \<open>Text and characters\<close>

text \<open>
  A JavaScript string is modelled as a \<^typ>\<open>string\<close>, one \<^typ>\<open>char\<close> per code unit,
  so the texts of the model are those whose code units are below 256. The regular
  expressions of the source name ASCII classes only. On these texts \<open>trim\<close> and
  \<open>toLowerCase\<close> are modelled exactly; \<open>toUpperCase\<close> is modelled exactly on ASCII
  text, which is all that the source applies it to outside the strings of a parsed
  reply.
\<close>

definition dquote :: char where
  "dquote = CHR 0x22"

definition backslash :: char where
  "backslash = CHR 0x5C"

definition lbrace :: char where
  "lbrace = CHR ''{''"

definition rbrace :: char where
  "rbrace = CHR ''}''"

section \<open>JSON-candidate extractor\<close>

text \<open>
  \<open>extractFirstJsonObject\<close>: the three loop variables \<open>depth\<close>, \<open>inString\<close> and
  \<open>escaped\<close> form the scanner's state; \<open>scanStep\<close> is one pass through the loop body
  up to the test \<open>depth === 0\<close>.
\<close>

record scan_state =
  depth :: int
  inString :: bool
  escaped :: bool

definition scanInit :: scan_state where
  "scanInit = \<lparr>depth = 0, inString = False, escaped = False\<rparr>"

definition scanStep :: "char \<Rightarrow> scan_state \<Rightarrow> scan_state" where
  "scanStep ch st =
     (let inS = (if ch = dquote \<and> \<not> escaped st then \<not> inString st else inString st);
          d = (if \<not> inS
               then (if ch = lbrace then depth st + 1
                     else if ch = rbrace then depth st - 1 else depth st)
               else depth st);
          esc = (ch = backslash \<and> \<not> escaped st)
      in \<lparr>depth = d, inString = inS, escaped = esc\<rparr>)"

text \<open>
  The loop from index \<open>firstBrace\<close>: \<open>scanFrom st s\<close> runs over the rest \<open>s\<close> of the
  text and returns how many characters were read when the depth first is zero
  (\<open>i + 1 - firstBrace\<close>), or \<open>None\<close> when the text ends before.
\<close>

fun scanFrom :: "scan_state \<Rightarrow> string \<Rightarrow> nat option" where
  "scanFrom st [] = None"
| "scanFrom st (ch # rest) =
     (let st' = scanStep ch st
      in if depth st' = 0 then Some 1 else map_option Suc (scanFrom st' rest))"

definition extractFirstJsonObject :: "string \<Rightarrow> string option" where
  "extractFirstJsonObject text =
     (case dropWhile (\<lambda>c. c \<noteq> lbrace) text of
        [] \<Rightarrow> None
      | s \<Rightarrow> map_option (\<lambda>n. take n s) (scanFrom scanInit s))"

text \<open>
  What a balanced object is, lexically: inside a double-quoted string every character
  is either plain or a backslash followed by one character; outside strings a body is
  made of plain characters, strings and nested brace pairs. Every JSON object text has
  this shape.
\<close>

inductive strBody :: "string \<Rightarrow> bool" where
  strNil: "strBody []"
| strPlain: "c \<noteq> dquote \<Longrightarrow> c \<noteq> backslash \<Longrightarrow> strBody s \<Longrightarrow> strBody (c # s)"
| strEsc: "strBody s \<Longrightarrow> strBody (backslash # c # s)"

inductive jsonBody :: "string \<Rightarrow> bool" where
  bodyNil: "jsonBody []"
| bodyPlain: "c \<noteq> dquote \<Longrightarrow> c \<noteq> backslash \<Longrightarrow> c \<noteq> lbrace \<Longrightarrow> c \<noteq> rbrace \<Longrightarrow>
     jsonBody s \<Longrightarrow> jsonBody (c # s)"
| bodyString: "strBody t \<Longrightarrow> jsonBody s \<Longrightarrow> jsonBody (dquote # t @ dquote # s)"
| bodyNested: "jsonBody b \<Longrightarrow> jsonBody s \<Longrightarrow> jsonBody (lbrace # b @ rbrace # s)"

definition balancedObject :: "string \<Rightarrow> bool" where
  "balancedObject obj = (\<exists>b. jsonBody b \<and> obj = lbrace # b @ [rbrace])"

definition fromFirstBrace :: "string \<Rightarrow> string" where
  "fromFirstBrace text = dropWhile (\<lambda>c. c \<noteq> lbrace) text"

text \<open>
  \<open>depthAfter s n\<close> is the value of \<open>depth\<close> when the loop, started at the first
  brace of a text whose rest is \<open>s\<close>, has read \<open>n\<close> characters.
\<close>

definition depthAfter :: "string \<Rightarrow> nat \<Rightarrow> int" where
  "depthAfter s n = depth (fold scanStep (take n s) scanInit)"

section \<open>Character classes, case mapping and trimming\<close>

definition isUpperChar :: "char \<Rightarrow> bool" where
  "isUpperChar c = (65 \<le> (of_char c :: nat) \<and> (of_char c :: nat) \<le> 90)"

definition isLowerChar :: "char \<Rightarrow> bool" where
  "isLowerChar c = (97 \<le> (of_char c :: nat) \<and> (of_char c :: nat) \<le> 122)"

definition isAlpha :: "char \<Rightarrow> bool" where
  "isAlpha c = (isUpperChar c \<or> isLowerChar c)"

definition isDigit :: "char \<Rightarrow> bool" where
  "isDigit c = (48 \<le> (of_char c :: nat) \<and> (of_char c :: nat) \<le> 57)"

text \<open>The class \<open>\w\<close> of a regular expression without flags: \<open>[A-Za-z0-9_]\<close>.\<close>

definition isWordChar :: "char \<Rightarrow> bool" where
  "isWordChar c = (isAlpha c \<or> isDigit c \<or> c = CHR ''_'')"

text \<open>What \<open>trim\<close> removes, among the code units below 256: tab, line feed, vertical
  tab, form feed, carriage return, space and the no-break space.\<close>

definition isSpace :: "char \<Rightarrow> bool" where
  "isSpace c =
     (c \<in> set [CHR 0x09, CHR 0x0A, CHR 0x0B, CHR 0x0C, CHR 0x0D, CHR 0x20, CHR 0xA0])"

text \<open>The capital letters beyond ASCII among the code units below 256: \<open>0xC0\<close> to
  \<open>0xDE\<close> without the multiplication sign \<open>0xD7\<close>; the small letter of each is 32
  above it.\<close>

definition isLatinUpper :: "char \<Rightarrow> bool" where
  "isLatinUpper c =
     (192 \<le> (of_char c :: nat) \<and> (of_char c :: nat) \<le> 222 \<and> (of_char c :: nat) \<noteq> 215)"

definition toUpperChar :: "char \<Rightarrow> char" where
  "toUpperChar c = (if isLowerChar c then char_of ((of_char c :: nat) - 32) else c)"

definition toLowerChar :: "char \<Rightarrow> char" where
  "toLowerChar c =
     (if isUpperChar c \<or> isLatinUpper c then char_of ((of_char c :: nat) + 32) else c)"

definition toUpperCase :: "string \<Rightarrow> string" where
  "toUpperCase s = map toUpperChar s"

definition toLowerCase :: "string \<Rightarrow> string" where
  "toLowerCase s = map toLowerChar s"

definition trim :: "string \<Rightarrow> string" where
  "trim s = rev (dropWhile isSpace (rev (dropWhile isSpace s)))"

text \<open>The test \<open>/^[A-Za-z]{3}$/\<close> and the test \<open>/^[A-Z]{3}$/\<close>.\<close>

definition isThreeLetters :: "string \<Rightarrow> bool" where
  "isThreeLetters s = (length s = 3 \<and> list_all isAlpha s)"

definition isThreeUpper :: "string \<Rightarrow> bool" where
  "isThreeUpper s = (length s = 3 \<and> list_all isUpperChar s)"

section \<open>Code-token extractor\<close>

text \<open>
  \<open>text.match(/\b[A-Za-z]{3}\b/g)\<close>. The matcher tries each position from the left;
  \<open>prevWord\<close> says whether the character before the position is a word character
  (false at the start of the text). \<open>\b\<close> holds where the characters on the two sides
  differ in being word characters, the outside of the text counting as a non-word
  character. After a match the search resumes behind it.
\<close>

definition headIsWord :: "string \<Rightarrow> bool" where
  "headIsWord s = (case s of [] \<Rightarrow> False | c # _ \<Rightarrow> isWordChar c)"

definition matchAt :: "bool \<Rightarrow> string \<Rightarrow> bool" where
  "matchAt prevWord s =
     (prevWord \<noteq> headIsWord s \<and> 3 \<le> length s \<and> list_all isAlpha (take 3 s) \<and>
      isWordChar (s ! 2) \<noteq> headIsWord (drop 3 s))"

function matchAll :: "bool \<Rightarrow> string \<Rightarrow> string list" where
  "matchAll prevWord [] = []"
| "matchAll prevWord (c # cs) =
     (if matchAt prevWord (c # cs)
      then take 3 (c # cs) # matchAll (isWordChar ((c # cs) ! 2)) (drop 3 (c # cs))
      else matchAll (isWordChar c) cs)"
  by pat_completeness auto
termination
  by (relation "measure (\<lambda>(p, s). length s)") auto

text \<open>\<open>Array.from(new Set(xs))\<close>: a set keeps its elements in the order they were
  first inserted.\<close>

definition setAdd :: "'a list \<Rightarrow> 'a \<Rightarrow> 'a list" where
  "setAdd acc x = (if x \<in> set acc then acc else acc @ [x])"

definition uniqueInOrder :: "'a list \<Rightarrow> 'a list" where
  "uniqueInOrder xs = foldl setAdd [] xs"

text \<open>The argument is \<open>string | null\<close>; \<open>!text\<close> holds of \<open>null\<close> and of the empty
  string.\<close>

definition extractIataCodesFromText :: "string option \<Rightarrow> string list" where
  "extractIataCodesFromText text =
     (case text of
        None \<Rightarrow> []
      | Some t \<Rightarrow>
          if t = [] then []
          else (let matches = matchAll False t
                in if matches = [] then []
                   else (let upper = uniqueInOrder (map toUpperCase matches)
                         in filter isThreeUpper upper)))"

text \<open>
  The contract in the specification's words: the maximal runs of word characters of
  the text (its words), of which those of exactly three letters are kept, uppercased,
  and listed once each in the order in which they first occur.
\<close>

function wordsOf :: "string \<Rightarrow> string list" where
  "wordsOf [] = []"
| "wordsOf (c # cs) =
     (if isWordChar c
      then takeWhile isWordChar (c # cs) # wordsOf (dropWhile isWordChar cs)
      else wordsOf cs)"
  by pat_completeness auto
termination
  by (relation "measure length") (auto simp: less_Suc_eq_le length_dropWhile_le)

definition firstSeen :: "'a list \<Rightarrow> 'a list" where
  "firstSeen xs = rev (remdups (rev xs))"

definition specCodeTokens :: "string \<Rightarrow> string list" where
  "specCodeTokens text =
     firstSeen (map toUpperCase (filter isThreeLetters (wordsOf text)))"

section \<open>Values of the model's reply\<close>

text \<open>
  The parsed reply of the text model is \<open>any\<close>. A number is represented by its
  \<open>String(...)\<close> rendering, the one observation besides truthiness that the code makes
  of it; it is falsy exactly when that rendering is \<open>0\<close> (zero of either sign) or
  \<open>NaN\<close>. The entries of an object are in look-up order.
\<close>

datatype jsval =
    JUndefined
  | JNull
  | JBool bool
  | JNum string
  | JStr string
  | JArr "jsval list"
  | JObj "(string \<times> jsval) list"

fun truthy :: "jsval \<Rightarrow> bool" where
  "truthy JUndefined = False"
| "truthy JNull = False"
| "truthy (JBool b) = b"
| "truthy (JNum r) = (r \<noteq> ''0'' \<and> r \<noteq> ''NaN'')"
| "truthy (JStr s) = (s \<noteq> [])"
| "truthy (JArr xs) = True"
| "truthy (JObj kvs) = True"

fun joinComma :: "string list \<Rightarrow> string" where
  "joinComma [] = []"
| "joinComma [x] = x"
| "joinComma (x # y # r) = x @ '','' @ joinComma (y # r)"

text \<open>\<open>String(v)\<close>; an array is joined with commas, \<open>null\<close> and \<open>undefined\<close> elements
  as empty strings. The conversion of an object that has an entry \<open>toString\<close> of its
  own throws in the source (\<open>stringThrows\<close> below); \<open>jsString\<close> is the conversion of
  the values for which it does not.\<close>

fun jsString :: "jsval \<Rightarrow> string" where
  "jsString JUndefined = ''undefined''"
| "jsString JNull = ''null''"
| "jsString (JBool b) = (if b then ''true'' else ''false'')"
| "jsString (JNum r) = r"
| "jsString (JStr s) = s"
| "jsString (JArr xs) =
     joinComma (map (\<lambda>v. if v = JUndefined \<or> v = JNull then [] else jsString v) xs)"
| "jsString (JObj kvs) = ''[object Object]''"


text \<open>Reading a property of a truthy value: an object answers from its entries,
  anything else has no such property.\<close>

fun getProp :: "jsval \<Rightarrow> string \<Rightarrow> jsval" where
  "getProp (JObj kvs) k = (case map_of kvs k of Some v \<Rightarrow> v | None \<Rightarrow> JUndefined)"
| "getProp v k = JUndefined"

section \<open>Airport resolver\<close>

text \<open>The static table. Only the keys written in the object literal are modelled:
  the two names every object inherits that survive lowercasing, \<open>constructor\<close> and
  \<open>__proto__\<close>, are outside the model (\<open>plainKey\<close>).\<close>

definition COUNTRY_AIRPORTS_entries :: "(string \<times> string list) list" where
  "COUNTRY_AIRPORTS_entries =
     [(''germany'', [''FRA'', ''MUC'', ''BER'', ''DUS'', ''HAM'']),
      (''france'', [''CDG'', ''ORY'', ''NCE'', ''LYS'', ''MRS'']),
      (''italy'', [''FCO'', ''MXP'', ''VCE'', ''NAP'', ''BGY'']),
      (''spain'', [''MAD'', ''BCN'', ''PMI'', ''AGP'', ''SVQ'']),
      (''uk'', [''LHR'', ''LGW'', ''MAN'', ''EDI'', ''BHX'']),
      (''united kingdom'', [''LHR'', ''LGW'', ''MAN'', ''EDI'', ''BHX'']),
      (''usa'', [''JFK'', ''LAX'', ''ORD'', ''DFW'', ''ATL'']),
      (''united states'', [''JFK'', ''LAX'', ''ORD'', ''DFW'', ''ATL'']),
      (''canada'', [''YYZ'', ''YVR'', ''YUL'', ''YYC'', ''YOW'']),
      (''japan'', [''NRT'', ''HND'', ''KIX'', ''NGO'', ''FUK'']),
      (''australia'', [''SYD'', ''MEL'', ''BNE'', ''PER'', ''ADL'']),
      (''india'', [''DEL'', ''BOM'', ''BLR'', ''CCU'', ''MAA'']),
      (''china'', [''PEK'', ''PVG'', ''CAN'', ''CTU'', ''SZX'']),
      (''brazil'', [''GRU'', ''GIG'', ''BSB'', ''CGH'', ''SSA'']),
      (''mexico'', [''MEX'', ''CUN'', ''GDL'', ''MTY'', ''TIJ''])]"

definition COUNTRY_AIRPORTS :: "string \<Rightarrow> string list option" where
  "COUNTRY_AIRPORTS = map_of COUNTRY_AIRPORTS_entries"

definition lookupKeyOf :: "string \<Rightarrow> string" where
  "lookupKeyOf input = trim (toLowerCase (trim input))"


text \<open>\<open>safeParseJsonCandidate\<close>; \<open>JSON.parse\<close> is a parameter, \<open>None\<close> where it throws.\<close>

definition safeParseJsonCandidate :: "(string \<Rightarrow> jsval option) \<Rightarrow> string option \<Rightarrow> jsval" where
  "safeParseJsonCandidate parse text =
     (case text of
        None \<Rightarrow> JNull
      | Some t \<Rightarrow> if t = [] then JNull
                  else (case parse t of None \<Rightarrow> JNull | Some v \<Rightarrow> v))"

text \<open>The reply to the airport request: the text \<open>rawText\<close>, or any failure on the way
  to it, which the function throws and its caller turns into \<open>null\<close>.\<close>

datatype airport_reply = AirportThrows | AirportText string

definition fetchAirportCodesFromGemini :: "(string \<Rightarrow> jsval option) \<Rightarrow> airport_reply \<Rightarrow> jsval" where
  "fetchAirportCodesFromGemini parse reply =
     (case reply of
        AirportThrows \<Rightarrow> JNull
      | AirportText rawText \<Rightarrow>
          (let jsonCandidate = extractFirstJsonObject rawText;
               parsed = safeParseJsonCandidate parse jsonCandidate
           in if \<not> truthy parsed
              then (let tokens = extractIataCodesFromText (Some rawText)
                    in if 2 \<le> length tokens
                       then JObj [(''source_airports'', JArr (map JStr (take 1 tokens))),
                                  (''destination_airports'', JArr (map JStr (drop 1 tokens)))]
                       else JNull)
              else parsed))"

definition arrayifyCodes :: "jsval \<Rightarrow> string list" where
  "arrayifyCodes v =
     (if \<not> truthy v then []
      else (case v of
              JArr xs \<Rightarrow> map (\<lambda>s. toUpperCase (jsString s)) xs
            | JStr s \<Rightarrow> [toUpperCase s]
            | _ \<Rightarrow> []))"

text \<open>Lines 192 to 199: the lists the model's reply provides.\<close>

definition modelAirports :: "jsval \<Rightarrow> string list \<times> string list" where
  "modelAirports airportLookup =
     (if truthy airportLookup \<and>
         (truthy (getProp airportLookup ''source_airports'') \<or>
          truthy (getProp airportLookup ''destination_airports''))
      then (arrayifyCodes (getProp airportLookup ''source_airports''),
            arrayifyCodes (getProp airportLookup ''destination_airports''))
      else ([], []))"

text \<open>Lines 202 to 214 for the source, 215 to 225 for the destination: the same
  steps on either side.\<close>

definition fallbackSide :: "string \<Rightarrow> string list \<Rightarrow> string list" where
  "fallbackSide input airports =
     (if airports = []
      then (let s = trim input
            in if isThreeLetters s then [toUpperCase s]
               else (let lookupKey = trim (toLowerCase s)
                     in case COUNTRY_AIRPORTS lookupKey of
                          Some codes \<Rightarrow> codes
                        | None \<Rightarrow> airports))
      else airports)"

text \<open>Lines 228 to 234.\<close>

definition finalFallback :: "string list \<times> string list \<Rightarrow> string list \<times> string list" where
  "finalFallback p =
     (let sourceAirports =
            (if fst p = [] \<and> snd p \<noteq> [] then [hd (snd p)] else fst p);
          destinationAirports =
            (if snd p = [] \<and> sourceAirports \<noteq> [] then [hd sourceAirports] else snd p)
      in (sourceAirports, destinationAirports))"

definition resolveAirports :: "jsval \<Rightarrow> string \<Rightarrow> string \<Rightarrow> string list \<times> string list" where
  "resolveAirports airportLookup source destination =
     (let m = modelAirports airportLookup
      in finalFallback (fallbackSide source (fst m), fallbackSide destination (snd m)))"

section \<open>Flight aggregator\<close>

text \<open>
  What the flight search returns for one destination. A field the provider may leave
  out is an \<open>option\<close>; prices and durations are whole numbers. \<open>FlightThrows\<close> stands
  for every failure the inner \<open>try\<close> catches before the offers are read (the request is
  rejected, the body is not JSON).
\<close>

record airport_info =
  ap_id :: "string option"
  ap_name :: "string option"
  ap_time :: "string option"

record leg =
  departure_airport :: "airport_info option"
  arrival_airport :: "airport_info option"
  leg_airline :: "string option"

record best_flight =
  flights :: "leg list option"
  bf_price :: "int option"
  total_duration :: "int option"

datatype flight_reply =
    FlightThrows
  | FlightNotOk nat
  | FlightData "best_flight list option"

record route_leg =
  route_from :: "string option"
  route_to :: "string option"
  fromName :: "string option"
  toName :: "string option"

record flight_option =
  destination :: string
  destinationName :: string
  price :: "int option"
  duration :: "int option"
  airline :: string
  route :: "route_leg list"
  departureTime :: string
  arrivalTime :: string

record flight_request =
  departure_id :: string
  arrival_id :: string
  outbound_date :: string

text \<open>\<open>x || d\<close> on a string that may be absent.\<close>

definition orElse :: "string option \<Rightarrow> string \<Rightarrow> string" where
  "orElse x d = (case x of None \<Rightarrow> d | Some s \<Rightarrow> if s = [] then d else s)"

definition firstLeg :: "best_flight \<Rightarrow> leg option" where
  "firstLeg flight =
     (case flights flight of None \<Rightarrow> None | Some ls \<Rightarrow> (case ls of [] \<Rightarrow> None | l # _ \<Rightarrow> Some l))"

definition lastLeg :: "best_flight \<Rightarrow> leg option" where
  "lastLeg flight =
     (case flights flight of None \<Rightarrow> None | Some ls \<Rightarrow> if ls = [] then None else Some (last ls))"

text \<open>One leg of the route; reading \<open>id\<close> of an absent airport throws (\<open>None\<close>).\<close>

definition mapLeg :: "leg \<Rightarrow> route_leg option" where
  "mapLeg l =
     (case departure_airport l of
        None \<Rightarrow> None
      | Some dep \<Rightarrow>
          (case arrival_airport l of
             None \<Rightarrow> None
           | Some arr \<Rightarrow>
               Some \<lparr>route_from = ap_id dep, route_to = ap_id arr,
                     fromName = ap_name dep, toName = ap_name arr\<rparr>))"

definition mapRoute :: "best_flight \<Rightarrow> route_leg list option" where
  "mapRoute flight = (case flights flight of None \<Rightarrow> Some [] | Some ls \<Rightarrow> those (map mapLeg ls))"

definition mapBestFlight :: "string \<Rightarrow> best_flight \<Rightarrow> flight_option option" where
  "mapBestFlight destAirport flight =
     (case mapRoute flight of
        None \<Rightarrow> None
      | Some r \<Rightarrow>
          Some \<lparr>destination = destAirport,
                destinationName =
                  orElse (Option.bind (Option.bind (lastLeg flight) arrival_airport) ap_name)
                    destAirport,
                price = bf_price flight,
                duration = total_duration flight,
                airline = orElse (Option.bind (firstLeg flight) leg_airline) ''Unknown'',
                route = r,
                departureTime =
                  orElse (Option.bind (Option.bind (firstLeg flight) departure_airport) ap_time) [],
                arrivalTime =
                  orElse (Option.bind (Option.bind (lastLeg flight) arrival_airport) ap_time) []\<rparr>)"

text \<open>The body of the function mapped over \<open>destinationAirports\<close>, given the reply to
  its request: whatever is thrown is caught and the result is the empty list.\<close>

definition fetchFlights :: "string \<Rightarrow> flight_reply \<Rightarrow> flight_option list" where
  "fetchFlights destAirport reply =
     (case reply of
        FlightThrows \<Rightarrow> []
      | FlightNotOk status \<Rightarrow> []
      | FlightData best_flights \<Rightarrow>
          (case best_flights of
             None \<Rightarrow> []
           | Some fs \<Rightarrow>
               if 0 < length fs
               then (case those (map (mapBestFlight destAirport) fs) of
                       None \<Rightarrow> []
                     | Some os \<Rightarrow> os)
               else []))"

definition MAX_SAFE_INTEGER :: int where
  "MAX_SAFE_INTEGER = 9007199254740991"

text \<open>\<open>a.price || Number.MAX_SAFE_INTEGER\<close>.\<close>

definition sortKey :: "flight_option \<Rightarrow> int" where
  "sortKey a = (case price a of None \<Rightarrow> MAX_SAFE_INTEGER
                | Some p \<Rightarrow> if p = 0 then MAX_SAFE_INTEGER else p)"

text \<open>The comparator of line 295: the difference of the two keys.\<close>

definition comparePrice :: "flight_option \<Rightarrow> flight_option \<Rightarrow> int" where
  "comparePrice a b = sortKey a - sortKey b"

text \<open>\<open>allFlightResults.flat().sort(...)\<close>. The built-in sort is stable; it is
  modelled by the stable insertion sort with the comparator of the source, an element
  going in front of the first one that it does not compare greater than.\<close>

fun insertFlight :: "flight_option \<Rightarrow> flight_option list \<Rightarrow> flight_option list" where
  "insertFlight a [] = [a]"
| "insertFlight a (b # bs) =
     (if comparePrice a b \<le> 0 then a # b # bs else b # insertFlight a bs)"

definition sortFlights :: "flight_option list list \<Rightarrow> flight_option list" where
  "sortFlights allFlightResults = foldr insertFlight (concat allFlightResults) []"

text \<open>Lines 298 to 301: \<open>flightData[0].destination || destinationAirports[0] || null\<close>.\<close>

definition selectAirportCode :: "flight_option list \<Rightarrow> string list \<Rightarrow> string option" where
  "selectAirportCode flightData destinationAirports =
     (case flightData of
        [] \<Rightarrow> None
      | f # _ \<Rightarrow>
          if destination f \<noteq> [] then Some (destination f)
          else (case destinationAirports of
                  [] \<Rightarrow> None
                | d # _ \<Rightarrow> if d \<noteq> [] then Some d else None))"

definition originAirportForSearch :: "string list \<Rightarrow> string \<Rightarrow> string" where
  "originAirportForSearch sourceAirports source =
     (if 0 < length sourceAirports then hd sourceAirports else source)"

text \<open>The request sent for one destination (the fields that go into the URL).\<close>

definition flightRequests :: "string \<Rightarrow> string list \<Rightarrow> string \<Rightarrow> flight_request list" where
  "flightRequests origin destinationAirports flightDate =
     map (\<lambda>destAirport. \<lparr>departure_id = origin, arrival_id = destAirport,
                           outbound_date = flightDate\<rparr>) destinationAirports"

text \<open>The search for all destinations: \<open>replies i\<close> is the reply to the request for
  the destination at index \<open>i\<close>.\<close>

definition searchFlights :: "(nat \<Rightarrow> flight_reply) \<Rightarrow> string list \<Rightarrow> flight_option list list" where
  "searchFlights replies destinationAirports =
     map (\<lambda>i. fetchFlights (destinationAirports ! i) (replies i))
       [0 ..< length destinationAirports]"

section \<open>Request handler\<close>

datatype thrown = ErrorObject string | OtherValue

definition errorMessage :: "thrown \<Rightarrow> string" where
  "errorMessage e = (case e of ErrorObject m \<Rightarrow> m | OtherValue \<Rightarrow> ''An unexpected error occurred'')"

text \<open>The reply to the itinerary request: the request or the reading of its body
  throws, the status is not a success, or the body is read and holds a text or none.\<close>

datatype itinerary_reply =
    ItineraryThrows thrown
  | ItineraryNotOk nat
  | ItineraryText "string option"

record request_body =
  body_source :: string
  body_destination :: string
  body_startDate :: string
  body_includeFlights :: bool

datatype http_request =
    Options
  | UnreadableBody thrown
  | Post request_body

text \<open>
  What the handler finds outside itself: the two credentials, the replies of the two
  services, \<open>JSON.parse\<close>, and \<open>isoDate\<close> for
  \<open>new Date(startDate).toISOString().split("T")[0]\<close>, \<open>None\<close> where it throws.
\<close>

record environment =
  GEMINI_API_KEY :: "string option"
  SERPAPI_API_KEY :: "string option"
  jsonParse :: "string \<Rightarrow> jsval option"
  isoDate :: "string \<Rightarrow> string option"
  airportReply :: airport_reply
  flightReply :: "nat \<Rightarrow> flight_request \<Rightarrow> flight_reply"
  itineraryReply :: itinerary_reply

datatype upstream_call =
    AirportLookupCall string string
  | FlightSearchCall flight_request
  | ItineraryCall string

record airport_codes =
  codes_source :: "string list option"
  codes_destination :: "string list option"

record response_body =
  airportCodes :: airport_codes
  selectedAirportCode :: "string option"
  flightData :: "flight_option list option"
  itinerary :: string

datatype response =
    Preflight
  | Success response_body
  | Failure string

text \<open>\<open>!KEY\<close>: the variable is not set, or is the empty string.\<close>

definition notConfigured :: "string option \<Rightarrow> bool" where
  "notConfigured k = (case k of None \<Rightarrow> True | Some s \<Rightarrow> s = [])"

text \<open>The decimal digits of a status code, for the error message.\<close>

function decimal :: "nat \<Rightarrow> string" where
  "decimal n = (if n < 10 then [char_of (48 + n)]
                else decimal (n div 10) @ [char_of (48 + n mod 10)])"
  by pat_completeness auto
termination
  by (relation "measure id") auto

text \<open>Lines 246 to 306: the requests sent, \<open>flightData\<close> and \<open>selectedAirportCode\<close>.\<close>

definition flightStage ::
  "environment \<Rightarrow> request_body \<Rightarrow> string \<Rightarrow> string list \<Rightarrow>
     flight_request list \<times> flight_option list \<times> string option" where
  "flightStage env body origin destinationAirports =
     (if body_includeFlights body
      then (if notConfigured (SERPAPI_API_KEY env) then ([], [], None)
            else (case isoDate env (body_startDate body) of
                    None \<Rightarrow> ([], [], None)
                  | Some flightDate \<Rightarrow>
                      (let requests = flightRequests origin destinationAirports flightDate;
                           allFlightResults =
                             searchFlights (\<lambda>i. flightReply env i (requests ! i))
                               destinationAirports;
                           sortedFlights = sortFlights allFlightResults
                       in (requests, sortedFlights,
                           selectAirportCode sortedFlights destinationAirports))))
      else ([], [], None))"

definition arrivalInfo :: "string \<Rightarrow> string option \<Rightarrow> string" where
  "arrivalInfo dest selected =
     (case selected of
        None \<Rightarrow> dest
      | Some code \<Rightarrow> if code = [] then dest
                     else dest @ '' (arriving at airport '' @ code @ '')'')"

definition nonEmpty :: "'a list \<Rightarrow> 'a list option" where
  "nonEmpty xs = (if 0 < length xs then Some xs else None)"

text \<open>Lines 176 to 234 together: the lists the handler resolves for a request.\<close>

definition resolvedAirports :: "environment \<Rightarrow> request_body \<Rightarrow> string list \<times> string list" where
  "resolvedAirports env body =
     resolveAirports (fetchAirportCodesFromGemini (jsonParse env) (airportReply env))
       (body_source body) (body_destination body)"

text \<open>Lines 236 to 377: what the handler does with the resolved lists, the calls it
  makes from there on and its response.\<close>

definition afterResolution ::
  "environment \<Rightarrow> request_body \<Rightarrow> string list \<Rightarrow> string list \<Rightarrow>
     upstream_call list \<times> response" where
  "afterResolution env body sourceAirports destinationAirports =
     (let origin = originAirportForSearch sourceAirports (body_source body);
          stage = flightStage env body origin destinationAirports;
          selected = snd (snd stage);
          calls = map FlightSearchCall (fst stage)
                  @ [ItineraryCall (arrivalInfo (body_destination body) selected)]
      in case itineraryReply env of
           ItineraryThrows e \<Rightarrow> (calls, Failure (errorMessage e))
         | ItineraryNotOk status \<Rightarrow>
             (calls, Failure (''AI Gateway error: '' @ decimal status))
         | ItineraryText t \<Rightarrow>
             (calls,
              Success \<lparr>airportCodes =
                         \<lparr>codes_source = nonEmpty sourceAirports,
                          codes_destination = nonEmpty destinationAirports\<rparr>,
                       selectedAirportCode = selected,
                       flightData = nonEmpty (fst (snd stage)),
                       itinerary = (case t of None \<Rightarrow> [] | Some s \<Rightarrow> s)\<rparr>))"

text \<open>The handler: the upstream calls it makes, in order, and its response.\<close>

definition handler :: "environment \<Rightarrow> http_request \<Rightarrow> upstream_call list \<times> response" where
  "handler env req =
     (case req of
        Options \<Rightarrow> ([], Preflight)
      | UnreadableBody e \<Rightarrow> ([], Failure (errorMessage e))
      | Post body \<Rightarrow>
          if notConfigured (GEMINI_API_KEY env)
          then ([], Failure ''GEMINI_API_KEY is not configured'')
          else
            (let airports = resolvedAirports env body;
                 rest = afterResolution env body (fst airports) (snd airports)
             in (AirportLookupCall (body_source body) (body_destination body) # fst rest,
                 snd rest)))"

section \<open>Properties named by the specification\<close>












text \<open>The sort key in the specification's words: the price, an absent price counting
  as the largest value.\<close>

definition claimedSortKey :: "flight_option \<Rightarrow> int" where
  "claimedSortKey a = (case price a of None \<Rightarrow> MAX_SAFE_INTEGER | Some p \<Rightarrow> p)"

text \<open>The flight requests among the calls of a trace.\<close>

fun searchRequests :: "upstream_call list \<Rightarrow> flight_request list" where
  "searchRequests [] = []"
| "searchRequests (FlightSearchCall r # cs) = r # searchRequests cs"
| "searchRequests (c # cs) = searchRequests cs"

text \<open>An offer of which the provider names the price only, and the option that
  \<open>mapBestFlight\<close> makes of it.\<close>

definition bareOffer :: "int option \<Rightarrow> best_flight" where
  "bareOffer p = \<lparr>flights = None, bf_price = p, total_duration = None\<rparr>"

definition pricedOption :: "string \<Rightarrow> int option \<Rightarrow> flight_option" where
  "pricedOption d p =
     \<lparr>destination = d, destinationName = d, price = p, duration = None,
      airline = ''Unknown'', route = [], departureTime = [], arrivalTime = []\<rparr>"

text \<open>The replies of the specification's example: the search for the first
  destination fails, the second returns three offers.\<close>

definition exampleReplies :: "nat \<Rightarrow> flight_reply" where
  "exampleReplies i =
     (if i = 0 then FlightThrows
      else FlightData (Some [bareOffer (Some 500), bareOffer (Some 200), bareOffer (Some 800)]))"



section \<open>The extractor finds the object behind the first brace\<close>

lemma char_consts_distinct:
  "dquote \<noteq> backslash" "dquote \<noteq> lbrace" "dquote \<noteq> rbrace"
  "backslash \<noteq> lbrace" "backslash \<noteq> rbrace" "lbrace \<noteq> rbrace"
  by (simp_all add: dquote_def backslash_def lbrace_def rbrace_def)

lemmas char_neq = char_consts_distinct char_consts_distinct [symmetric]

lemma scanFrom_strBody:
  assumes "strBody t" and "d \<noteq> 0"
  shows "scanFrom \<lparr>depth = d, inString = True, escaped = False\<rparr> (t @ dquote # rest) =
         map_option (\<lambda>n. n + length t + 1)
           (scanFrom \<lparr>depth = d, inString = False, escaped = False\<rparr> rest)"
  using assms
proof (induction t rule: strBody.induct)
  case strNil
  then show ?case
    by (cases "scanFrom \<lparr>depth = d, inString = False, escaped = False\<rparr> rest")
       (simp_all add: scanStep_def Let_def char_neq)
next
  case (strPlain c s)
  then show ?case
    by (cases "scanFrom \<lparr>depth = d, inString = False, escaped = False\<rparr> rest")
       (simp_all add: scanStep_def Let_def)
next
  case (strEsc s c)
  then show ?case
    by (cases "scanFrom \<lparr>depth = d, inString = False, escaped = False\<rparr> rest")
       (simp_all add: scanStep_def Let_def char_neq)
qed

lemma scanFrom_jsonBody:
  assumes "jsonBody b" and "0 < d"
  shows "scanFrom \<lparr>depth = d, inString = False, escaped = False\<rparr> (b @ rest) =
         map_option (\<lambda>n. n + length b)
           (scanFrom \<lparr>depth = d, inString = False, escaped = False\<rparr> rest)"
  using assms
proof (induction b arbitrary: d rest rule: jsonBody.induct)
  case bodyNil
  then show ?case by (simp add: option.map_ident)
next
  case (bodyPlain c s)
  then show ?case
    by (simp add: scanStep_def Let_def option.map_comp comp_def)
next
  case (bodyString t s)
  have "scanFrom \<lparr>depth = d, inString = False, escaped = False\<rparr>
          ((dquote # t @ dquote # s) @ rest) =
        map_option Suc (scanFrom \<lparr>depth = d, inString = True, escaped = False\<rparr>
          (t @ dquote # (s @ rest)))"
    using bodyString.prems by (simp add: scanStep_def Let_def char_neq)
  also have "\<dots> = map_option Suc (map_option (\<lambda>n. n + length t + 1)
          (scanFrom \<lparr>depth = d, inString = False, escaped = False\<rparr> (s @ rest)))"
    using scanFrom_strBody [OF bodyString.hyps(1), of d "s @ rest"] bodyString.prems
    by simp
  also have "\<dots> = map_option (\<lambda>n. n + length (dquote # t @ dquote # s))
          (scanFrom \<lparr>depth = d, inString = False, escaped = False\<rparr> rest)"
    using bodyString.IH [OF bodyString.prems, of rest]
    by (simp add: option.map_comp comp_def add_ac)
  finally show ?case .
next
  case (bodyNested b s)
  have "scanFrom \<lparr>depth = d, inString = False, escaped = False\<rparr>
          ((lbrace # b @ rbrace # s) @ rest) =
        map_option Suc (scanFrom \<lparr>depth = d + 1, inString = False, escaped = False\<rparr>
          (b @ rbrace # (s @ rest)))"
    using bodyNested.prems by (simp add: scanStep_def Let_def char_neq)
  also have "\<dots> = map_option Suc (map_option (\<lambda>n. n + length b)
          (scanFrom \<lparr>depth = d + 1, inString = False, escaped = False\<rparr>
             (rbrace # (s @ rest))))"
    using bodyNested.IH(1) [of "d + 1" "rbrace # (s @ rest)"] bodyNested.prems by simp
  also have "\<dots> = map_option Suc (map_option (\<lambda>n. n + length b) (map_option Suc
          (scanFrom \<lparr>depth = d, inString = False, escaped = False\<rparr> (s @ rest))))"
    using bodyNested.prems by (simp add: scanStep_def Let_def char_neq)
  also have "\<dots> = map_option (\<lambda>n. n + length (lbrace # b @ rbrace # s))
          (scanFrom \<lparr>depth = d, inString = False, escaped = False\<rparr> rest)"
    using bodyNested.IH(2) [OF bodyNested.prems, of rest]
    by (simp add: option.map_comp comp_def add_ac)
  finally show ?case .
qed

lemma scanFrom_balancedObject:
  assumes "balancedObject obj"
  shows "scanFrom scanInit (obj @ suf) = Some (length obj)"
proof -
  from assms obtain b where b: "jsonBody b" and obj: "obj = lbrace # b @ [rbrace]"
    by (auto simp: balancedObject_def)
  have "scanFrom scanInit (obj @ suf) =
        map_option Suc (scanFrom \<lparr>depth = 1, inString = False, escaped = False\<rparr>
          (b @ rbrace # suf))"
    by (simp add: obj scanInit_def scanStep_def Let_def char_neq)
  also have "\<dots> = map_option Suc (map_option (\<lambda>n. n + length b)
          (scanFrom \<lparr>depth = 1, inString = False, escaped = False\<rparr> (rbrace # suf)))"
    using scanFrom_jsonBody [OF b, of 1 "rbrace # suf"] by simp
  also have "\<dots> = Some (length obj)"
    by (simp add: obj scanStep_def Let_def char_neq)
  finally show ?thesis .
qed

lemma extract_balancedObject:
  assumes "balancedObject obj" and "lbrace \<notin> set pre"
  shows "extractFirstJsonObject (pre @ obj @ suf) = Some obj"
proof -
  from assms(1) obtain r where r: "obj = lbrace # r"
    by (auto simp: balancedObject_def)
  have "dropWhile (\<lambda>c. c \<noteq> lbrace) (pre @ obj @ suf) = obj @ suf"
    using assms(2) by (simp add: dropWhile_append r)
  then show ?thesis
    using scanFrom_balancedObject [OF assms(1), of suf]
    by (simp add: extractFirstJsonObject_def r)
qed

lemma scanFrom_None_iff:
  "scanFrom st s = None \<longleftrightarrow> (\<forall>n\<in>{1..length s}. depth (fold scanStep (take n s) st) \<noteq> 0)"
proof (induction s arbitrary: st)
  case Nil
  then show ?case by simp
next
  case (Cons c rest)
  have "(\<forall>n\<in>{1..length (c # rest)}. depth (fold scanStep (take n (c # rest)) st) \<noteq> 0) \<longleftrightarrow>
        depth (scanStep c st) \<noteq> 0 \<and>
        (\<forall>m\<in>{1..length rest}. depth (fold scanStep (take m rest) (scanStep c st)) \<noteq> 0)"
    (is "?L \<longleftrightarrow> ?A \<and> ?R")
  proof
    assume L: ?L
    have ?A using L [rule_format, of 1] by simp
    moreover have ?R
    proof
      fix m assume "m \<in> {1..length rest}"
      then show "depth (fold scanStep (take m rest) (scanStep c st)) \<noteq> 0"
        using L [rule_format, of "Suc m"] by simp
    qed
    ultimately show "?A \<and> ?R" ..
  next
    assume AR: "?A \<and> ?R"
    show ?L
    proof
      fix n assume n: "n \<in> {1..length (c # rest)}"
      then obtain m where m: "n = Suc m" by (cases n) auto
      show "depth (fold scanStep (take n (c # rest)) st) \<noteq> 0"
      proof (cases m)
        case 0
        then show ?thesis using AR m by simp
      next
        case (Suc k)
        then have "m \<in> {1..length rest}" using n m by simp
        then show ?thesis using AR m by simp
      qed
    qed
  qed
  then show ?case using Cons.IH [of "scanStep c st"] by (simp add: Let_def)
qed

lemma extract_None_iff:
  "extractFirstJsonObject text = None \<longleftrightarrow>
     lbrace \<notin> set text \<or>
     (\<forall>n\<in>{1..length (fromFirstBrace text)}. depthAfter (fromFirstBrace text) n \<noteq> 0)"
proof (cases "lbrace \<in> set text")
  case False
  then have "dropWhile (\<lambda>c. c \<noteq> lbrace) text = []" by auto
  then show ?thesis unfolding extractFirstJsonObject_def using False
    by (simp del: dropWhile_eq_Nil_conv)
next
  case True
  then have "dropWhile (\<lambda>c. c \<noteq> lbrace) text \<noteq> []" by simp
  then show ?thesis using True scanFrom_None_iff [of scanInit "fromFirstBrace text"]
    by (auto simp add: extractFirstJsonObject_def fromFirstBrace_def depthAfter_def
        split: list.splits)
qed

text \<open>
  Claim C1, amended. A text made of a balanced object, commentary before it that holds
  no opening brace and any commentary after it yields exactly the object's text; braces
  inside its strings and escaped quotes do not end the scan early. A text without an
  opening brace, and a text in which the depth is never zero again once the scan has
  started, yield no candidate.
\<close>

theorem extractFirstJsonObject_first_brace:
  "(balancedObject obj \<and> lbrace \<notin> set pre \<longrightarrow>
      extractFirstJsonObject (pre @ obj @ suf) = Some obj) \<and>
   (lbrace \<notin> set input \<longrightarrow> extractFirstJsonObject input = None) \<and>
   ((\<forall>n\<in>{1..length (fromFirstBrace input2)}. depthAfter (fromFirstBrace input2) n \<noteq> 0) \<longrightarrow>
      extractFirstJsonObject input2 = None)"
  using extract_balancedObject [of obj pre suf] extract_None_iff [of input]
    extract_None_iff [of input2]
  by blast

lemma balanced_note_object: "balancedObject ''{\"note\":\"a{b}c\",\"x\":1}''"
proof -
  have s1: "strBody ''note''" and s2: "strBody ''a{b}c''" and s3: "strBody ''x''"
    by (intro strPlain strNil; simp add: dquote_def backslash_def)+
  have "jsonBody '':1''"
    by (intro bodyPlain bodyNil) (simp_all add: dquote_def backslash_def lbrace_def rbrace_def)
  then have "jsonBody (dquote # ''x'' @ dquote # '':1'')"
    using s3 by (intro bodyString)
  then have "jsonBody (CHR '','' # dquote # ''x'' @ dquote # '':1'')"
    by - (rule bodyPlain, simp_all add: dquote_def backslash_def lbrace_def rbrace_def)
  then have "jsonBody (dquote # ''a{b}c'' @ dquote # (CHR '','' # dquote # ''x'' @ dquote # '':1''))"
    using s2 by (intro bodyString)
  then have "jsonBody (CHR '':'' #
      (dquote # ''a{b}c'' @ dquote # (CHR '','' # dquote # ''x'' @ dquote # '':1'')))"
    by - (rule bodyPlain, simp_all add: dquote_def backslash_def lbrace_def rbrace_def)
  then have "jsonBody (dquote # ''note'' @ dquote # (CHR '':'' #
      (dquote # ''a{b}c'' @ dquote # (CHR '','' # dquote # ''x'' @ dquote # '':1''))))"
    using s1 by (intro bodyString)
  moreover have "''{\"note\":\"a{b}c\",\"x\":1}'' = lbrace # (dquote # ''note'' @ dquote # (CHR '':'' #
      (dquote # ''a{b}c'' @ dquote # (CHR '','' # dquote # ''x'' @ dquote # '':1'')))) @ [rbrace]"
    by (simp add: dquote_def lbrace_def rbrace_def)
  ultimately show ?thesis unfolding balancedObject_def by blast
qed

lemma balanced_a1: "balancedObject ''{\"a\":1}''"
proof -
  have "strBody ''a''" by (intro strPlain strNil) (simp_all add: dquote_def backslash_def)
  moreover have "jsonBody '':1''"
    by (intro bodyPlain bodyNil) (simp_all add: dquote_def backslash_def lbrace_def rbrace_def)
  ultimately have "jsonBody (dquote # ''a'' @ dquote # '':1'')" by (rule bodyString)
  moreover have "''{\"a\":1}'' = lbrace # (dquote # ''a'' @ dquote # '':1'') @ [rbrace]"
    by (simp add: dquote_def lbrace_def rbrace_def)
  ultimately show ?thesis unfolding balancedObject_def by blast
qed

lemma unclosed_depths:
  "\<forall>n\<in>{1..length (fromFirstBrace ''x {\"a\":\"}\"'')}. depthAfter (fromFirstBrace ''x {\"a\":\"}\"'') n \<noteq> 0"
proof -
  have "extractFirstJsonObject ''x {\"a\":\"}\"'' = None" by code_simp
  moreover have "lbrace \<in> set ''x {\"a\":\"}\"''" by (simp add: lbrace_def)
  ultimately show ?thesis using extract_None_iff [of "''x {\"a\":\"}\"''"] by blast
qed

theorem extractFirstJsonObject_first_brace_witness:
  "balancedObject ''{\"note\":\"a{b}c\",\"x\":1}'' \<and> lbrace \<notin> set ''here is it: '' \<and>
   extractFirstJsonObject (''here is it: '' @ ''{\"note\":\"a{b}c\",\"x\":1}'' @ '' thanks'') =
     Some ''{\"note\":\"a{b}c\",\"x\":1}'' \<and>
   lbrace \<notin> set ''no object here'' \<and> extractFirstJsonObject ''no object here'' = None \<and>
   list_all (\<lambda>n. depthAfter (fromFirstBrace ''x {\"a\":\"}\"'') n \<noteq> 0)
     [1 ..< Suc (length (fromFirstBrace ''x {\"a\":\"}\"''))] \<and>
   extractFirstJsonObject ''x {\"a\":\"}\"'' = None"
proof -
  have h1: "lbrace \<notin> set ''here is it: ''" and h2: "lbrace \<notin> set ''no object here''"
    by (simp_all add: lbrace_def)
  have h3: "list_all (\<lambda>n. depthAfter (fromFirstBrace ''x {\"a\":\"}\"'') n \<noteq> 0)
     [1 ..< Suc (length (fromFirstBrace ''x {\"a\":\"}\"''))]"
    using unclosed_depths by (auto simp: list_all_iff)
  show ?thesis
    using extractFirstJsonObject_first_brace [of "''{\"note\":\"a{b}c\",\"x\":1}''"
        "''here is it: ''" "'' thanks''" "''no object here''" "''x {\"a\":\"}\"''"]
      balanced_note_object h1 h2 unclosed_depths h3
    by blast
qed

text \<open>
  With an opening brace in the commentary before the object the scan starts there: the
  object of the text below is balanced, and the result is no candidate.
\<close>

theorem extractFirstJsonObject_counterexample:
  "balancedObject ''{\"a\":1}'' \<and>
   extractFirstJsonObject (''see :-{ '' @ ''{\"a\":1}'' @ '' ok'') \<noteq> Some ''{\"a\":1}''"
proof -
  have "extractFirstJsonObject (''see :-{ '' @ ''{\"a\":1}'' @ '' ok'') = None" by code_simp
  then show ?thesis using balanced_a1 by simp
qed

section \<open>The code tokens are the three-letter words\<close>

lemma isAlpha_word: "isAlpha c \<Longrightarrow> isWordChar c"
  by (simp add: isWordChar_def)

lemma matchAt_prevWord: "\<not> matchAt True (c # cs)"
  by (auto simp: matchAt_def headIsWord_def isAlpha_word)

lemma matchAt_nonword: "\<not> isWordChar c \<Longrightarrow> \<not> matchAt False (c # cs)"
  by (auto simp: matchAt_def headIsWord_def)

lemma headIsWord_dropWhile: "\<not> headIsWord (dropWhile isWordChar s)"
  using hd_dropWhile [of isWordChar s]
  by (cases "dropWhile isWordChar s") (auto simp: headIsWord_def simp del: dropWhile_eq_Nil_conv)

lemma takeWhile_prefix:
  assumes "list_all P xs" and "ys = [] \<or> \<not> P (hd ys)"
  shows "takeWhile P (xs @ ys) = xs \<and> dropWhile P (xs @ ys) = ys"
proof -
  have "takeWhile P ys = []" "dropWhile P ys = ys"
    using assms(2) by (cases ys; auto)+
  then show ?thesis
    using assms(1) by (simp add: list_all_iff)
qed

lemma take_takeWhile:
  "length (takeWhile P xs) = n \<Longrightarrow> take n xs = takeWhile P xs \<and> drop n xs = dropWhile P xs"
  by (metis append_eq_conv_conj takeWhile_dropWhile_id)

lemma matchAt_word:
  assumes "isWordChar c"
  shows "matchAt False (c # cs) \<longleftrightarrow> isThreeLetters (takeWhile isWordChar (c # cs))"
    and "matchAt False (c # cs) \<Longrightarrow>
           take 3 (c # cs) = takeWhile isWordChar (c # cs) \<and>
           drop 3 (c # cs) = dropWhile isWordChar (c # cs) \<and> isWordChar ((c # cs) ! 2)"
proof -
  let ?s = "c # cs"
  have fwd: "take 3 ?s = takeWhile isWordChar ?s \<and> drop 3 ?s = dropWhile isWordChar ?s \<and>
             isWordChar (?s ! 2) \<and> isThreeLetters (takeWhile isWordChar ?s)"
    if m: "matchAt False ?s"
  proof -
    from m have len: "3 \<le> length ?s" and al: "list_all isAlpha (take 3 ?s)"
      and b: "isWordChar (?s ! 2) \<noteq> headIsWord (drop 3 ?s)"
      by (auto simp: matchAt_def)
    have "?s ! 2 \<in> set (take 3 ?s)"
      using len by (metis in_set_conv_nth length_take min.absorb2 nth_take
          numeral_2_eq_2 numeral_3_eq_3 lessI)
    then have w2: "isWordChar (?s ! 2)" using al by (auto simp: list_all_iff isAlpha_word)
    with b have "\<not> headIsWord (drop 3 ?s)" by simp
    then have e: "drop 3 ?s = [] \<or> \<not> isWordChar (hd (drop 3 ?s))"
      by (cases "drop 3 ?s") (auto simp: headIsWord_def)
    have "list_all isWordChar (take 3 ?s)"
      using al by (auto simp: list_all_iff isAlpha_word)
    from takeWhile_prefix [OF this e]
    have t: "takeWhile isWordChar ?s = take 3 ?s" and d: "dropWhile isWordChar ?s = drop 3 ?s"
      by simp_all
    have "isThreeLetters (take 3 ?s)" using len al by (simp add: isThreeLetters_def)
    then show ?thesis using t d w2 by simp
  qed
  have bwd: "matchAt False ?s" if w: "isThreeLetters (takeWhile isWordChar ?s)"
  proof -
    let ?w = "takeWhile isWordChar ?s"
    have s: "?s = ?w @ dropWhile isWordChar ?s" by simp
    have lw: "length ?w = 3" and aw: "list_all isAlpha ?w"
      using w by (auto simp: isThreeLetters_def)
    have t: "take 3 ?s = ?w" and d: "drop 3 ?s = dropWhile isWordChar ?s"
      using take_takeWhile [OF lw] by blast+
    have len: "3 \<le> length ?s" using lw length_takeWhile_le [of isWordChar ?s] by simp
    have "2 < length ?w" unfolding lw by simp
    then have mem: "?w ! 2 \<in> set ?w" by (rule nth_mem)
    have "?s ! 2 = ?w ! 2" using lw by (metis t nth_take numeral_2_eq_2 numeral_3_eq_3 lessI)
    with mem have "isWordChar (?s ! 2)" using aw by (auto simp: list_all_iff isAlpha_word)
    then show ?thesis
      using assms len aw t d headIsWord_dropWhile [of ?s]
      by (simp add: matchAt_def headIsWord_def del: takeWhile.simps dropWhile.simps)
  qed
  show "matchAt False ?s \<longleftrightarrow> isThreeLetters (takeWhile isWordChar ?s)"
    using fwd bwd by blast
  show "matchAt False ?s \<Longrightarrow>
           take 3 ?s = takeWhile isWordChar ?s \<and>
           drop 3 ?s = dropWhile isWordChar ?s \<and> isWordChar (?s ! 2)"
    using fwd by blast
qed

lemma dropWhile_dropWhile: "dropWhile P (dropWhile P xs) = dropWhile P xs"
  by (induction xs) auto

lemma matchAll_words:
  "matchAll prevWord s =
     filter isThreeLetters (wordsOf (if prevWord then dropWhile isWordChar s else s))"
proof (induction prevWord s rule: matchAll.induct)
  case (1 prevWord)
  then show ?case by simp
next
  case (2 prevWord c cs)
  show ?case
  proof (cases prevWord)
    case True
    then have "matchAll prevWord (c # cs) = matchAll (isWordChar c) cs"
      using matchAt_prevWord [of c cs] by simp
    also have "\<dots> = filter isThreeLetters
        (wordsOf (if isWordChar c then dropWhile isWordChar cs else cs))"
      using "2.IH"(2) True matchAt_prevWord [of c cs] by simp
    also have "\<dots> = filter isThreeLetters (wordsOf (dropWhile isWordChar (c # cs)))"
      by simp
    finally show ?thesis using True by simp
  next
    case False
    show ?thesis
    proof (cases "isWordChar c")
      case nw: False
      then have "matchAll False (c # cs) = matchAll False cs"
        using matchAt_nonword [of c cs] by simp
      also have "\<dots> = filter isThreeLetters (wordsOf cs)"
        using "2.IH"(2) False nw matchAt_nonword [of c cs] by simp
      finally show ?thesis using False nw by simp
    next
      case w: True
      show ?thesis
      proof (cases "matchAt False (c # cs)")
        case m: True
        from matchAt_word(2) [OF w m]
        have t: "take 3 (c # cs) = takeWhile isWordChar (c # cs)"
          and d: "drop 3 (c # cs) = dropWhile isWordChar (c # cs)"
          and w2: "isWordChar ((c # cs) ! 2)" by simp_all
        have three: "isThreeLetters (takeWhile isWordChar (c # cs))"
          using matchAt_word(1) [OF w, of cs] m by simp
        have "matchAll False (c # cs) =
              take 3 (c # cs) # matchAll True (drop 3 (c # cs))"
          using m w2 by (simp del: take.simps drop.simps)
        also have "matchAll True (drop 3 (c # cs)) =
              filter isThreeLetters (wordsOf (dropWhile isWordChar (drop 3 (c # cs))))"
          using "2.IH"(1) False m w2 by (simp del: take.simps drop.simps)
        also have "dropWhile isWordChar (drop 3 (c # cs)) = dropWhile isWordChar cs"
          unfolding d using w by (simp add: dropWhile_dropWhile)
        finally show ?thesis using False w three t
          by (simp del: take.simps drop.simps)
      next
        case nm: False
        then have three: "\<not> isThreeLetters (takeWhile isWordChar (c # cs))"
          using matchAt_word(1) [OF w, of cs] by simp
        have "matchAll False (c # cs) = matchAll True cs"
          using nm w by simp
        also have "\<dots> = filter isThreeLetters (wordsOf (dropWhile isWordChar cs))"
          using "2.IH"(2) False nm w by simp
        finally show ?thesis using False w three by simp
      qed
    qed
  qed
qed

lemma uniqueInOrder_firstSeen: "uniqueInOrder xs = firstSeen xs"
proof (induction xs rule: rev_induct)
  case Nil
  then show ?case by (simp add: uniqueInOrder_def firstSeen_def)
next
  case (snoc x xs)
  have "set (uniqueInOrder xs) = set xs"
    using snoc by (simp add: firstSeen_def)
  then show ?case
    using snoc by (simp add: uniqueInOrder_def firstSeen_def setAdd_def)
qed

lemma toUpperChar_upper: "isAlpha c \<Longrightarrow> isUpperChar (toUpperChar c)"
  by (auto simp: isAlpha_def isUpperChar_def isLowerChar_def toUpperChar_def)

lemma toUpperCase_three: "isThreeLetters s \<Longrightarrow> isThreeUpper (toUpperCase s)"
  by (auto simp: isThreeLetters_def isThreeUpper_def toUpperCase_def list_all_iff
      toUpperChar_upper)

lemma set_firstSeen: "set (firstSeen xs) = set xs"
  by (simp add: firstSeen_def)

lemma distinct_firstSeen: "distinct (firstSeen xs)"
  by (simp add: firstSeen_def)

lemma specCodeTokens_upper: "list_all isThreeUpper (specCodeTokens t)"
  by (auto simp: specCodeTokens_def list_all_iff set_firstSeen toUpperCase_three)

lemma extractIata_spec: "extractIataCodesFromText (Some t) = specCodeTokens t"
proof (cases "t = []")
  case True
  then show ?thesis
    by (simp add: extractIataCodesFromText_def specCodeTokens_def firstSeen_def)
next
  case False
  let ?m = "matchAll False t"
  have m: "?m = filter isThreeLetters (wordsOf t)"
    using matchAll_words [of False t] by simp
  have e: "extractIataCodesFromText (Some t) =
        (if ?m = [] then [] else filter isThreeUpper (uniqueInOrder (map toUpperCase ?m)))"
    using False by (simp add: extractIataCodesFromText_def Let_def)
  have s: "specCodeTokens t = uniqueInOrder (map toUpperCase ?m)"
    unfolding m uniqueInOrder_firstSeen specCodeTokens_def ..
  have f: "filter isThreeUpper (specCodeTokens t) = specCodeTokens t"
    using specCodeTokens_upper [of t] by (simp add: list_all_iff)
  have g: "?m = [] \<Longrightarrow> specCodeTokens t = []"
    unfolding s by (simp add: uniqueInOrder_def)
  show ?thesis
  proof (cases "?m = []")
    case True
    then show ?thesis using e g by simp
  next
    case False
    then have "extractIataCodesFromText (Some t) = filter isThreeUpper (specCodeTokens t)"
      using e s by simp
    then show ?thesis using f by simp
  qed
qed

lemma fly_example:
  "extractIataCodesFromText (Some ''Fly from NYC to the CDG hub, LAX also possible'') =
     [''FLY'', ''NYC'', ''THE'', ''CDG'', ''HUB'', ''LAX'']"
  by code_simp

text \<open>
  Claim C4, amended. The extractor returns the words of the text that are exactly
  three letters, in either case, uppercased and listed once each in the order of
  their first occurrence; each is three uppercase letters, so the last filter removes
  nothing. On the text of the example the result is
  \<open>FLY, NYC, THE, CDG, HUB, LAX\<close>.
\<close>

theorem extractIataCodesFromText_words:
  "extractIataCodesFromText (Some t) = specCodeTokens t \<and>
   list_all isThreeUpper (extractIataCodesFromText (Some t)) \<and>
   distinct (extractIataCodesFromText (Some t)) \<and>
   extractIataCodesFromText (Some ''Fly from NYC to the CDG hub, LAX also possible'') =
     [''FLY'', ''NYC'', ''THE'', ''CDG'', ''HUB'', ''LAX'']"
proof (intro conjI)
  show "extractIataCodesFromText (Some t) = specCodeTokens t" by (rule extractIata_spec)
  show "list_all isThreeUpper (extractIataCodesFromText (Some t))"
    unfolding extractIata_spec by (rule specCodeTokens_upper)
  show "distinct (extractIataCodesFromText (Some t))"
    unfolding extractIata_spec specCodeTokens_def by (rule distinct_firstSeen)
  show "extractIataCodesFromText (Some ''Fly from NYC to the CDG hub, LAX also possible'') =
     [''FLY'', ''NYC'', ''THE'', ''CDG'', ''HUB'', ''LAX'']"
    by (rule fly_example)
qed

text \<open>The matching is blind to case, so the three-letter words \<open>Fly\<close>, \<open>the\<close> and
  \<open>hub\<close> of the example are tokens too.\<close>

theorem extractIataCodesFromText_counterexample:
  "extractIataCodesFromText (Some ''Fly from NYC to the CDG hub, LAX also possible'') \<noteq>
     [''NYC'', ''CDG'', ''LAX'']"
  by code_simp

section \<open>The airport resolver\<close>

lemma table_codes:
  assumes "COUNTRY_AIRPORTS k = Some codes"
  shows "codes \<noteq> [] \<and> list_all isThreeUpper codes"
  using assms
  by (auto simp: COUNTRY_AIRPORTS_def COUNTRY_AIRPORTS_entries_def isThreeUpper_def
      isUpperChar_def split: if_splits)





lemma finalFallback_nonempty:
  "fst p \<noteq> [] \<or> snd p \<noteq> [] \<Longrightarrow> fst (finalFallback p) \<noteq> [] \<and> snd (finalFallback p) \<noteq> []"
  by (auto simp: finalFallback_def Let_def)



lemma finalFallback_keeps_fst: "fst p \<noteq> [] \<Longrightarrow> fst (finalFallback p) = fst p"
  by (simp add: finalFallback_def Let_def)

lemma finalFallback_keeps_snd: "snd p \<noteq> [] \<Longrightarrow> snd (finalFallback p) = snd p"
  by (simp add: finalFallback_def Let_def)



























lemma isSpace_toLowerChar: "isSpace (toLowerChar c) = isSpace c"
proof (cases "isUpperChar c \<or> isLatinUpper c")
  case False
  then show ?thesis by (simp add: toLowerChar_def)
next
  case True
  have a: "\<not> isSpace c"
    using True by (auto simp: isSpace_def isUpperChar_def isLatinUpper_def)
  have "(of_char (toLowerChar c) :: nat) = of_char c + 32"
    using True by (auto simp: toLowerChar_def isUpperChar_def isLatinUpper_def)
  then have "97 \<le> (of_char (toLowerChar c) :: nat)"
    "(of_char (toLowerChar c) :: nat) \<noteq> 160"
    using True by (auto simp: isUpperChar_def isLatinUpper_def)
  then have "\<not> isSpace (toLowerChar c)"
    by (auto simp: isSpace_def)
  with a show ?thesis by simp
qed

lemma dropWhile_isSpace_toLowerCase:
  "dropWhile isSpace (toLowerCase s) = toLowerCase (dropWhile isSpace s)"
  by (simp add: toLowerCase_def dropWhile_map comp_def isSpace_toLowerChar)

lemma trim_toLowerCase: "trim (toLowerCase s) = toLowerCase (trim s)"
proof -
  have "rev (toLowerCase xs) = toLowerCase (rev xs)" for xs
    by (simp add: toLowerCase_def rev_map)
  then show ?thesis
    by (simp add: trim_def dropWhile_isSpace_toLowerCase)
qed

lemma dropWhile_id: "xs = [] \<or> \<not> P (hd xs) \<Longrightarrow> dropWhile P xs = xs"
  by (cases xs) auto

lemma last_dropWhile_same: "dropWhile P xs \<noteq> [] \<Longrightarrow> last (dropWhile P xs) = last xs"
  by (induction xs) (auto split: if_splits)

lemma trim_idem: "trim (trim s) = trim s"
proof -
  let ?t = "dropWhile isSpace s"
  let ?u = "dropWhile isSpace (rev ?t)"
  show ?thesis
  proof (cases "?u = []")
    case True
    then have e: "trim s = []" unfolding trim_def by (simp del: dropWhile_eq_Nil_conv)
    have "trim [] = []" by (simp add: trim_def)
    then show ?thesis unfolding e .
  next
    case False
    then have t: "?t \<noteq> []"
      by (cases "?t = []") (simp_all del: dropWhile_eq_Nil_conv)
    have "\<not> isSpace (hd ?u)" using False by (rule hd_dropWhile)
    then have 2: "dropWhile isSpace (rev (rev ?u)) = ?u"
      by (simp add: dropWhile_id)
    have "\<not> isSpace (hd ?t)" using t by (rule hd_dropWhile)
    then have "\<not> isSpace (last (rev ?t))" using t by (simp add: last_rev)
    moreover have "last ?u = last (rev ?t)"
      using False by (rule last_dropWhile_same)
    ultimately have "\<not> isSpace (hd (rev ?u))" using False by (simp add: hd_rev)
    then have 1: "dropWhile isSpace (rev ?u) = rev ?u" by (simp add: dropWhile_id)
    show ?thesis unfolding trim_def 1 2 ..
  qed
qed

lemma lookupKeyOf_eq: "lookupKeyOf input = toLowerCase (trim input)"
  by (simp add: lookupKeyOf_def trim_toLowerCase trim_idem)

text \<open>
  Claim C3. In the last tier an empty source list opposite a non-empty destination
  list becomes the list of the destination's first code, and the other way round; so
  both lists are non-empty as soon as one of them is when the tier starts. With
  source \<open>XYZ\<close>, an empty destination and a failing upstream call both lists are
  \<open>[XYZ]\<close>.
\<close>

theorem finalFallback_substitution:
  "finalFallback ([], d # ds) = ([d], d # ds) \<and>
   finalFallback (s # ss, []) = (s # ss, [s]) \<and>
   (fst p \<noteq> [] \<or> snd p \<noteq> [] \<longrightarrow>
      fst (finalFallback p) \<noteq> [] \<and> snd (finalFallback p) \<noteq> []) \<and>
   resolveAirports (fetchAirportCodesFromGemini parse AirportThrows) ''XYZ'' [] =
     ([''XYZ''], [''XYZ''])"
proof -
  have "resolveAirports JNull ''XYZ'' [] = ([''XYZ''], [''XYZ''])" by code_simp
  then show ?thesis
    using finalFallback_nonempty [of p]
    by (simp add: finalFallback_def fetchAirportCodesFromGemini_def)
qed

theorem finalFallback_substitution_witness:
  "fst ([''XYZ''], [] :: string list) \<noteq> [] \<and>
   fst (finalFallback ([''XYZ''], [])) \<noteq> [] \<and> snd (finalFallback ([''XYZ''], [])) \<noteq> []"
  using finalFallback_substitution [of _ _ _ _ "([''XYZ''], [])"] by simp

lemma resolve_fst:
  assumes "fst (modelAirports L) = []" and "fallbackSide src [] \<noteq> []"
  shows "fst (resolveAirports L src dst) = fallbackSide src []"
  using assms by (simp add: resolveAirports_def Let_def finalFallback_keeps_fst)

lemma resolve_snd:
  assumes "snd (modelAirports L) = []" and "fallbackSide dst [] \<noteq> []"
  shows "snd (resolveAirports L src dst) = fallbackSide dst []"
  using assms by (simp add: resolveAirports_def Let_def finalFallback_keeps_snd)

lemma fallbackSide_letters:
  "isThreeLetters (trim input) \<Longrightarrow> fallbackSide input [] = [toUpperCase (trim input)]"
  by (simp add: fallbackSide_def)

lemma fallbackSide_table:
  assumes "\<not> isThreeLetters (trim input)"
    and "COUNTRY_AIRPORTS (toLowerCase (trim input)) = Some codes"
  shows "fallbackSide input [] = codes"
  using assms lookupKeyOf_eq [of input]
  by (simp add: fallbackSide_def Let_def lookupKeyOf_def)

text \<open>
  Claim C7. A side whose list is empty after the model's tiers: when its input,
  trimmed, is exactly three letters, its list is that input in upper case alone;
  otherwise, when the trimmed input in lower case is a key of the static table, its
  list is the list of that key. With \<open>Germany\<close>, \<open>France\<close> and a failing upstream
  call the lists are those of the two table entries.
\<close>

theorem fallbackSide_static_table:
  "(fst (modelAirports L) = [] \<and> isThreeLetters (trim src) \<longrightarrow>
      fst (resolveAirports L src dst) = [toUpperCase (trim src)]) \<and>
   (fst (modelAirports L) = [] \<and> \<not> isThreeLetters (trim src) \<and>
    COUNTRY_AIRPORTS (toLowerCase (trim src)) = Some codes \<longrightarrow>
      fst (resolveAirports L src dst) = codes) \<and>
   (snd (modelAirports L) = [] \<and> isThreeLetters (trim dst) \<longrightarrow>
      snd (resolveAirports L src dst) = [toUpperCase (trim dst)]) \<and>
   (snd (modelAirports L) = [] \<and> \<not> isThreeLetters (trim dst) \<and>
    COUNTRY_AIRPORTS (toLowerCase (trim dst)) = Some codes' \<longrightarrow>
      snd (resolveAirports L src dst) = codes') \<and>
   resolveAirports (fetchAirportCodesFromGemini parse AirportThrows) ''Germany'' ''France'' =
     ([''FRA'', ''MUC'', ''BER'', ''DUS'', ''HAM''], [''CDG'', ''ORY'', ''NCE'', ''LYS'', ''MRS''])"
proof -
  have e: "resolveAirports JNull ''Germany'' ''France'' =
     ([''FRA'', ''MUC'', ''BER'', ''DUS'', ''HAM''], [''CDG'', ''ORY'', ''NCE'', ''LYS'', ''MRS''])"
    by code_simp
  have 1: "fst (resolveAirports L src dst) = [toUpperCase (trim src)]"
    if "fst (modelAirports L) = []" "isThreeLetters (trim src)"
    using that resolve_fst [of L src dst] fallbackSide_letters [of src] by simp
  have 2: "fst (resolveAirports L src dst) = codes"
    if "fst (modelAirports L) = []" "\<not> isThreeLetters (trim src)"
       "COUNTRY_AIRPORTS (toLowerCase (trim src)) = Some codes"
    using that resolve_fst [of L src dst] fallbackSide_table [of src codes]
      table_codes [of "toLowerCase (trim src)" codes] by simp
  have 3: "snd (resolveAirports L src dst) = [toUpperCase (trim dst)]"
    if "snd (modelAirports L) = []" "isThreeLetters (trim dst)"
    using that resolve_snd [of L dst src] fallbackSide_letters [of dst] by simp
  have 4: "snd (resolveAirports L src dst) = codes'"
    if "snd (modelAirports L) = []" "\<not> isThreeLetters (trim dst)"
       "COUNTRY_AIRPORTS (toLowerCase (trim dst)) = Some codes'"
    using that resolve_snd [of L dst src] fallbackSide_table [of dst codes']
      table_codes [of "toLowerCase (trim dst)" codes'] by simp
  show ?thesis using 1 2 3 4 e by (simp add: fetchAirportCodesFromGemini_def)
qed

lemma side_facts:
  "fst (modelAirports JNull) = []" "snd (modelAirports JNull) = []"
  "isThreeLetters (trim '' lax '')" "\<not> isThreeLetters (trim ''  United Kingdom'')"
  "COUNTRY_AIRPORTS (toLowerCase (trim ''  United Kingdom'')) =
     Some [''LHR'', ''LGW'', ''MAN'', ''EDI'', ''BHX'']"
  "isThreeLetters (trim ''cdg'')" "\<not> isThreeLetters (trim ''Japan'')"
  "COUNTRY_AIRPORTS (toLowerCase (trim ''Japan'')) = Some [''NRT'', ''HND'', ''KIX'', ''NGO'', ''FUK'']"
  by code_simp+

theorem fallbackSide_static_table_witness:
  "fst (modelAirports JNull) = [] \<and> snd (modelAirports JNull) = [] \<and>
   isThreeLetters (trim '' lax '') \<and>
   fst (resolveAirports JNull '' lax '' ''Japan'') = [''LAX''] \<and>
   \<not> isThreeLetters (trim ''  United Kingdom'') \<and>
   COUNTRY_AIRPORTS (toLowerCase (trim ''  United Kingdom'')) =
     Some [''LHR'', ''LGW'', ''MAN'', ''EDI'', ''BHX''] \<and>
   fst (resolveAirports JNull ''  United Kingdom'' ''cdg'') = [''LHR'', ''LGW'', ''MAN'', ''EDI'', ''BHX''] \<and>
   isThreeLetters (trim ''cdg'') \<and>
   snd (resolveAirports JNull ''  United Kingdom'' ''cdg'') = [''CDG''] \<and>
   \<not> isThreeLetters (trim ''Japan'') \<and>
   COUNTRY_AIRPORTS (toLowerCase (trim ''Japan'')) = Some [''NRT'', ''HND'', ''KIX'', ''NGO'', ''FUK''] \<and>
   snd (resolveAirports JNull '' lax '' ''Japan'') = [''NRT'', ''HND'', ''KIX'', ''NGO'', ''FUK'']"
proof -
  have u: "toUpperCase (trim '' lax '') = ''LAX''" "toUpperCase (trim ''cdg'') = ''CDG''"
    by code_simp+
  show ?thesis
    using fallbackSide_static_table [of JNull "'' lax ''" "''Japan''"
        "[]" "[''NRT'', ''HND'', ''KIX'', ''NGO'', ''FUK'']"]
      fallbackSide_static_table [of JNull "''  United Kingdom''" "''cdg''"
        "[''LHR'', ''LGW'', ''MAN'', ''EDI'', ''BHX'']" "[]"]
      side_facts u
    by simp
qed

section \<open>The flight aggregator\<close>

lemma insertFlight_insort: "insertFlight a bs = insort_key sortKey a bs"
  by (induction bs) (simp_all add: comparePrice_def)

lemma sortFlights_sort_key: "sortFlights rs = sort_key sortKey (concat rs)"
proof -
  have "foldr insertFlight xs [] = sort_key sortKey xs" for xs
    by (induction xs) (simp_all add: insertFlight_insort)
  then show ?thesis by (simp add: sortFlights_def)
qed

lemma sortFlights_sorted: "sorted (map sortKey (sortFlights rs))"
  by (simp add: sortFlights_sort_key)

lemma sortFlights_mset: "mset (sortFlights rs) = mset (concat rs)"
  by (simp add: sortFlights_sort_key)

lemma sortFlights_stable:
  "filter (\<lambda>f. sortKey f = k) (sortFlights rs) = filter (\<lambda>f. sortKey f = k) (concat rs)"
  by (simp add: sortFlights_sort_key sort_key_stable)

lemma sortFlights_set: "set (sortFlights rs) = set (concat rs)"
  by (simp add: sortFlights_sort_key)

lemma sortFlights_hd_least:
  assumes "f \<in> set (concat rs)"
  shows "sortFlights rs \<noteq> [] \<and> sortKey (hd (sortFlights rs)) \<le> sortKey f"
proof -
  have f: "f \<in> set (sortFlights rs)" using assms by (simp add: sortFlights_set)
  then obtain x xs where x: "sortFlights rs = x # xs" by (cases "sortFlights rs") auto
  have "sorted (map sortKey (x # xs))" using sortFlights_sorted [of rs] x by simp
  then have "sortKey x \<le> sortKey f" using f x by auto
  then show ?thesis using x by simp
qed

lemma sortKey_cases:
  "price f = None \<Longrightarrow> sortKey f = MAX_SAFE_INTEGER"
  "price f = Some 0 \<Longrightarrow> sortKey f = MAX_SAFE_INTEGER"
  "price f = Some p \<Longrightarrow> p \<noteq> 0 \<Longrightarrow> sortKey f = p"
  by (simp_all add: sortKey_def)

lemma select_empty: "selectAirportCode [] dests = None"
  by (simp add: selectAirportCode_def)

lemma select_first:
  "fs \<noteq> [] \<Longrightarrow> destination (hd fs) \<noteq> [] \<Longrightarrow>
   selectAirportCode fs dests = Some (destination (hd fs))"
  by (cases fs) (simp_all add: selectAirportCode_def)

text \<open>
  Claim C5, amended. The output is the flattened results of the destinations in
  ascending order of the sort key, with nothing removed; the key of an offer is its
  price when the price is present and not zero, and \<open>MAX_SAFE_INTEGER\<close> otherwise.
  Offers of equal key keep the order of the flattened results, which is the order of
  the destinations. When the output is non-empty and the destination code of its first
  entry is a non-empty string, that code is selected; when the output is empty,
  nothing is selected.
\<close>

theorem sortFlights_by_key:
  "sorted (map sortKey (sortFlights rs)) \<and>
   mset (sortFlights rs) = mset (concat rs) \<and>
   filter (\<lambda>f. sortKey f = k) (sortFlights rs) = filter (\<lambda>f. sortKey f = k) (concat rs) \<and>
   (price f = None \<or> price f = Some 0 \<longrightarrow> sortKey f = MAX_SAFE_INTEGER) \<and>
   (price f = Some p \<and> p \<noteq> 0 \<longrightarrow> sortKey f = p) \<and>
   (sortFlights rs \<noteq> [] \<and> destination (hd (sortFlights rs)) \<noteq> [] \<longrightarrow>
      selectAirportCode (sortFlights rs) dests = Some (destination (hd (sortFlights rs)))) \<and>
   (sortFlights rs = [] \<longrightarrow> selectAirportCode (sortFlights rs) dests = None)"
  using sortFlights_sorted [of rs] sortFlights_mset [of rs] sortFlights_stable [of k rs]
    sortKey_cases [of f] select_first [of "sortFlights rs" dests] select_empty [of dests]
  by auto

lemma mapBestFlight_bare: "mapBestFlight d (bareOffer p) = Some (pricedOption d p)"
  by (simp add: mapBestFlight_def bareOffer_def pricedOption_def mapRoute_def firstLeg_def
      lastLeg_def orElse_def)

theorem sortFlights_by_key_witness:
  "price (pricedOption ''CDG'' (Some 0)) = Some 0 \<and>
   sortKey (pricedOption ''CDG'' (Some 0)) = MAX_SAFE_INTEGER \<and>
   price (pricedOption ''CDG'' (Some 200)) = Some 200 \<and> (200 :: int) \<noteq> 0 \<and>
   sortKey (pricedOption ''CDG'' (Some 200)) = 200 \<and>
   sortFlights [[pricedOption ''CDG'' None], [pricedOption ''ORY'' (Some 200)]] \<noteq> [] \<and>
   destination (hd (sortFlights [[pricedOption ''CDG'' None], [pricedOption ''ORY'' (Some 200)]])) \<noteq> [] \<and>
   selectAirportCode (sortFlights [[pricedOption ''CDG'' None], [pricedOption ''ORY'' (Some 200)]])
     [''CDG'', ''ORY''] = Some ''ORY'' \<and>
   sortFlights [[], []] = [] \<and>
   selectAirportCode (sortFlights [[], []]) [''CDG'', ''ORY''] = None"
proof -
  let ?rs = "[[pricedOption ''CDG'' None], [pricedOption ''ORY'' (Some 200)]]"
  have s: "sortFlights ?rs = [pricedOption ''ORY'' (Some 200), pricedOption ''CDG'' None]"
    by (simp add: sortFlights_def comparePrice_def sortKey_def pricedOption_def MAX_SAFE_INTEGER_def)
  have e: "sortFlights [[], []] = []" by (simp add: sortFlights_def)
  have d: "destination (hd (sortFlights ?rs)) = ''ORY''"
    unfolding s by (simp add: pricedOption_def)
  have p: "price (pricedOption ''CDG'' (Some 0)) = Some 0"
    "price (pricedOption ''CDG'' (Some 200)) = Some 200"
    by (simp_all add: pricedOption_def)
  show ?thesis
    using sortFlights_by_key [of ?rs _ "pricedOption ''CDG'' (Some 0)" 0 "[''CDG'', ''ORY'']"]
      sortFlights_by_key [of "[[], []]" _ "pricedOption ''CDG'' (Some 200)" 200 "[''CDG'', ''ORY'']"]
      s e d p
    by simp
qed

text \<open>An offer priced zero stands behind one priced 200, so the output is not in
  ascending order of the price; and a first entry whose destination code is the empty
  string is passed over for the first code of the destination list.\<close>

theorem sortFlights_counterexample:
  "\<not> sorted (map claimedSortKey
        (sortFlights [[pricedOption ''CDG'' (Some 200), pricedOption ''CDG'' (Some 0)]])) \<and>
   sortFlights [[], [pricedOption [] (Some 100)]] \<noteq> [] \<and>
   selectAirportCode (sortFlights [[], [pricedOption [] (Some 100)]]) [''CDG'', []] \<noteq>
     Some (destination (hd (sortFlights [[], [pricedOption [] (Some 100)]])))"
  by (simp add: sortFlights_def comparePrice_def sortKey_def claimedSortKey_def pricedOption_def
      MAX_SAFE_INTEGER_def selectAirportCode_def)

text \<open>
  Claim C9, amended. An offer whose price is absent or zero has the key
  \<open>MAX_SAFE_INTEGER\<close>. In the output no such offer stands before an offer whose price
  is positive and below \<open>MAX_SAFE_INTEGER\<close>, and it is not the first entry, the one
  selected, when the results hold an offer so priced.
\<close>

theorem zero_price_sorts_last:
  "(price f = None \<or> price f = Some 0 \<longrightarrow> sortKey f = MAX_SAFE_INTEGER) \<and>
   (i < j \<and> j < length (sortFlights rs) \<and> price (sortFlights rs ! j) = Some p \<and>
    0 < p \<and> p < MAX_SAFE_INTEGER \<longrightarrow>
      price (sortFlights rs ! i) \<noteq> Some 0 \<and> price (sortFlights rs ! i) \<noteq> None) \<and>
   (g \<in> set (concat rs) \<and> price g = Some q \<and> 0 < q \<and> q < MAX_SAFE_INTEGER \<longrightarrow>
      sortFlights rs \<noteq> [] \<and> price (hd (sortFlights rs)) \<noteq> Some 0 \<and>
      price (hd (sortFlights rs)) \<noteq> None)"
proof (intro conjI impI)
  assume "price f = None \<or> price f = Some 0"
  then show "sortKey f = MAX_SAFE_INTEGER" by (auto simp: sortKey_def)
next
  assume a: "i < j \<and> j < length (sortFlights rs) \<and> price (sortFlights rs ! j) = Some p \<and>
    0 < p \<and> p < MAX_SAFE_INTEGER"
  let ?out = "sortFlights rs"
  have "map sortKey ?out ! i \<le> map sortKey ?out ! j"
    using a sortFlights_sorted [of rs] by (intro sorted_nth_mono) simp_all
  then have "sortKey (?out ! i) \<le> sortKey (?out ! j)" using a by simp
  moreover have "sortKey (?out ! j) = p" using a by (simp add: sortKey_def)
  ultimately have k: "sortKey (?out ! i) < MAX_SAFE_INTEGER" using a by simp
  show "price (?out ! i) \<noteq> Some 0" using k by (auto simp: sortKey_def)
  show "price (?out ! i) \<noteq> None" using k by (auto simp: sortKey_def split: option.splits)
next
  assume a: "g \<in> set (concat rs) \<and> price g = Some q \<and> 0 < q \<and> q < MAX_SAFE_INTEGER"
  then have l: "sortFlights rs \<noteq> [] \<and> sortKey (hd (sortFlights rs)) \<le> sortKey g"
    using sortFlights_hd_least [of g rs] by simp
  moreover have "sortKey g = q" using a by (simp add: sortKey_def)
  ultimately have k: "sortKey (hd (sortFlights rs)) < MAX_SAFE_INTEGER" using a by simp
  show "sortFlights rs \<noteq> []" using l by simp
  show "price (hd (sortFlights rs)) \<noteq> Some 0" using k by (auto simp: sortKey_def)
  show "price (hd (sortFlights rs)) \<noteq> None" using k by (auto simp: sortKey_def split: option.splits)
qed

theorem zero_price_sorts_last_witness:
  "price (pricedOption ''CDG'' (Some 0)) = Some 0 \<and>
   sortKey (pricedOption ''CDG'' (Some 0)) = MAX_SAFE_INTEGER \<and>
   (0 :: nat) < 1 \<and>
   1 < length (sortFlights [[pricedOption ''CDG'' (Some 0)], [pricedOption ''ORY'' (Some 200)]]) \<and>
   price (sortFlights [[pricedOption ''CDG'' (Some 0)], [pricedOption ''ORY'' (Some 200)]] ! 1) = Some 0 \<and>
   price (sortFlights [[pricedOption ''CDG'' (Some 0)], [pricedOption ''ORY'' (Some 200)]] ! 0) = Some 200 \<and>
   pricedOption ''ORY'' (Some 200) \<in>
     set (concat [[pricedOption ''CDG'' (Some 0)], [pricedOption ''ORY'' (Some 200)]]) \<and>
   price (pricedOption ''ORY'' (Some 200)) = Some 200 \<and> (0 :: int) < 200 \<and>
   200 < MAX_SAFE_INTEGER \<and>
   price (hd (sortFlights [[pricedOption ''CDG'' (Some 0)], [pricedOption ''ORY'' (Some 200)]])) \<noteq> Some 0"
proof -
  let ?rs = "[[pricedOption ''CDG'' (Some 0)], [pricedOption ''ORY'' (Some 200)]]"
  have s: "sortFlights ?rs = [pricedOption ''ORY'' (Some 200), pricedOption ''CDG'' (Some 0)]"
    by (simp add: sortFlights_def comparePrice_def sortKey_def pricedOption_def MAX_SAFE_INTEGER_def)
  have p: "price (pricedOption ''CDG'' (Some 0)) = Some 0"
    "price (pricedOption ''ORY'' (Some 200)) = Some 200"
    by (simp_all add: pricedOption_def)
  have m: "(200 :: int) < MAX_SAFE_INTEGER" by (simp add: MAX_SAFE_INTEGER_def)
  show ?thesis
    using zero_price_sorts_last [of "pricedOption ''CDG'' (Some 0)" 0 1 ?rs 200
        "pricedOption ''ORY'' (Some 200)" 200] s p m
    by simp
qed

text \<open>A price above \<open>MAX_SAFE_INTEGER\<close> is positive and has a greater key than the
  offer priced zero, which then comes first and is selected.\<close>

theorem zero_price_counterexample:
  "price (pricedOption ''BBB'' (Some 9007199254740992)) = Some 9007199254740992 \<and>
   (0 :: int) < 9007199254740992 \<and>
   sortFlights [[pricedOption ''AAA'' (Some 0)], [pricedOption ''BBB'' (Some 9007199254740992)]] =
     [pricedOption ''AAA'' (Some 0), pricedOption ''BBB'' (Some 9007199254740992)] \<and>
   selectAirportCode
     (sortFlights [[pricedOption ''AAA'' (Some 0)], [pricedOption ''BBB'' (Some 9007199254740992)]])
     [''AAA'', ''BBB''] = Some ''AAA''"
  by (simp add: sortFlights_def comparePrice_def sortKey_def pricedOption_def MAX_SAFE_INTEGER_def
      selectAirportCode_def)

lemma fetchFlights_failed:
  "fetchFlights d FlightThrows = []" "fetchFlights d (FlightNotOk st) = []"
  by (simp_all add: fetchFlights_def)

lemma searchFlights_length: "length (searchFlights replies dests) = length dests"
  by (simp add: searchFlights_def)

lemma searchFlights_nth:
  "i < length dests \<Longrightarrow> searchFlights replies dests ! i = fetchFlights (dests ! i) (replies i)"
  by (simp add: searchFlights_def)

lemma searchFlights_update:
  assumes "fetchFlights (dests ! k) r = []"
  shows "searchFlights (replies(k := r)) dests = (searchFlights replies dests)[k := []]"
proof (rule nth_equalityI)
  show "length (searchFlights (replies(k := r)) dests) =
        length ((searchFlights replies dests)[k := []])"
    by (simp add: searchFlights_length)
next
  fix i assume "i < length (searchFlights (replies(k := r)) dests)"
  then have i: "i < length dests" by (simp add: searchFlights_length)
  show "searchFlights (replies(k := r)) dests ! i = (searchFlights replies dests)[k := []] ! i"
    using i assms by (cases "i = k") (simp_all add: searchFlights_nth searchFlights_length)
qed

lemma example_search:
  "searchFlights exampleReplies [''CDG'', ''ORY''] =
     [[], [pricedOption ''ORY'' (Some 500), pricedOption ''ORY'' (Some 200),
           pricedOption ''ORY'' (Some 800)]]"
proof -
  have "[0 ..< length [''CDG'', ''ORY'']] = [0, Suc 0]" by (simp add: upt_rec)
  then show ?thesis
    by (simp add: searchFlights_def exampleReplies_def fetchFlights_def mapBestFlight_bare)
qed

lemma example_sorted:
  "sortFlights (searchFlights exampleReplies [''CDG'', ''ORY'']) =
     [pricedOption ''ORY'' (Some 200), pricedOption ''ORY'' (Some 500),
      pricedOption ''ORY'' (Some 800)]"
  unfolding example_search
  by (simp add: sortFlights_def comparePrice_def sortKey_def pricedOption_def)

text \<open>
  Claim C6. A request that throws or is answered with a status that is not a success
  gives the empty list for its destination; replacing the reply for the destination
  at index \<open>k\<close> by such a failure empties the result at \<open>k\<close> and leaves every other
  result as it was. In the example the output is the three offers in the order 200,
  500, 800 and the selected code is the destination of the offer priced 200.
\<close>

theorem searchFlights_isolated:
  "fetchFlights d FlightThrows = [] \<and> fetchFlights d (FlightNotOk st) = [] \<and>
   searchFlights (replies(k := FlightThrows)) dests = (searchFlights replies dests)[k := []] \<and>
   searchFlights (replies(k := FlightNotOk st)) dests = (searchFlights replies dests)[k := []] \<and>
   map price (sortFlights (searchFlights exampleReplies [''CDG'', ''ORY''])) =
     [Some 200, Some 500, Some 800] \<and>
   selectAirportCode (sortFlights (searchFlights exampleReplies [''CDG'', ''ORY'']))
     [''CDG'', ''ORY''] = Some ''ORY'' \<and>
   destination (hd (sortFlights (searchFlights exampleReplies [''CDG'', ''ORY'']))) = ''ORY''"
proof -
  have "searchFlights (replies(k := FlightThrows)) dests = (searchFlights replies dests)[k := []]"
    by (rule searchFlights_update) (rule fetchFlights_failed)
  moreover have "searchFlights (replies(k := FlightNotOk st)) dests =
      (searchFlights replies dests)[k := []]"
    by (rule searchFlights_update) (rule fetchFlights_failed)
  ultimately show ?thesis
    unfolding example_sorted
    by (simp add: fetchFlights_failed selectAirportCode_def pricedOption_def)
qed

lemma afterResolution_calls:
  "fst (afterResolution env body sa da) =
     map FlightSearchCall
       (fst (flightStage env body (originAirportForSearch sa (body_source body)) da))
     @ [ItineraryCall (arrivalInfo (body_destination body)
          (snd (snd (flightStage env body (originAirportForSearch sa (body_source body)) da))))]"
  by (simp add: afterResolution_def Let_def split: itinerary_reply.splits)

lemma searchRequests_calls:
  "searchRequests (map FlightSearchCall rs @ cs) = rs @ searchRequests cs"
  by (induction rs) simp_all

lemma flightStage_requests:
  "list_all (\<lambda>r. departure_id r = origin) (fst (flightStage env body origin dests))"
  by (auto simp: flightStage_def flightRequests_def Let_def list_all_iff split: option.splits)

lemma origin_first: "originAirportForSearch (a # rest) src = a"
  by (simp add: originAirportForSearch_def)

text \<open>
  Claim C10. The origin is the raw source when the source list is empty and the first
  element of the list otherwise; every flight request sent once the lists are resolved
  departs from that origin, and the calls made are the same whatever codes follow the
  first in the source list. The calls of the handler are the airport request and
  these.
\<close>

theorem origin_is_first_source_airport:
  "originAirportForSearch [] src = src \<and>
   originAirportForSearch (a # rest) src = a \<and>
   list_all (\<lambda>r. departure_id r = originAirportForSearch sa (body_source body))
     (searchRequests (fst (afterResolution env body sa da))) \<and>
   fst (afterResolution env body (a # rest) da) = fst (afterResolution env body [a] da) \<and>
   fst (handler env (Post body)) =
     (if notConfigured (GEMINI_API_KEY env) then []
      else AirportLookupCall (body_source body) (body_destination body) #
           fst (afterResolution env body (fst (resolvedAirports env body))
                  (snd (resolvedAirports env body))))"
proof (intro conjI)
  show "originAirportForSearch [] src = src" by (simp add: originAirportForSearch_def)
  show "originAirportForSearch (a # rest) src = a" by (rule origin_first)
  show "list_all (\<lambda>r. departure_id r = originAirportForSearch sa (body_source body))
     (searchRequests (fst (afterResolution env body sa da)))"
    unfolding afterResolution_calls searchRequests_calls
    using flightStage_requests by simp
  show "fst (afterResolution env body (a # rest) da) = fst (afterResolution env body [a] da)"
    unfolding afterResolution_calls origin_first ..
  show "fst (handler env (Post body)) =
     (if notConfigured (GEMINI_API_KEY env) then []
      else AirportLookupCall (body_source body) (body_destination body) #
           fst (afterResolution env body (fst (resolvedAirports env body))
                  (snd (resolvedAirports env body))))"
    by (simp add: handler_def Let_def)
qed

section \<open>The request handler\<close>










end
